theory Spec2Isabelle
  imports Complex_Main
begin

section \<open>Python values used by the education services\<close>

text \<open>
  Exceptions that the modelled code can raise. \<open>HTTPException\<close> carries the status code
  the API layer attaches to it.
\<close>

datatype exn = ValueError | IndexError | KeyError | HTTPException nat

text \<open>
  A Python \<open>float\<close>. A finite float is represented by the rational number it stands for
  and a decimal literal of the source (\<open>0.6\<close>, \<open>0.85\<close>) by its decimal value, written
  with the same literal (\<open>0.6\<close> is \<open>6 / 10\<close>); rounding and overflow of binary floating
  point are outside the model. The three non-finite values are
  kept, because the comparisons of the suggestion policy treat them specially.
\<close>

datatype pyfloat = Finite rat | PosInf | NegInf | NaN

text \<open>Python's \<open>a < b\<close> on floats: false whenever an operand is NaN.\<close>

fun float_lt :: "pyfloat \<Rightarrow> pyfloat \<Rightarrow> bool" where
  "float_lt (Finite a) (Finite b) = (a < b)"
| "float_lt (Finite a) PosInf = True"
| "float_lt NegInf (Finite b) = True"
| "float_lt NegInf PosInf = True"
| "float_lt a b = False"

text \<open>Python's \<open>a >= b\<close> on floats: false whenever an operand is NaN.\<close>

definition float_ge :: "pyfloat \<Rightarrow> pyfloat \<Rightarrow> bool" where
  "float_ge a b = (a \<noteq> NaN \<and> b \<noteq> NaN \<and> \<not> float_lt a b)"

text \<open>
  The values a \<open>dict[str, Any]\<close> of the code holds: what JSON can carry. A dictionary is
  an association list in insertion order.
\<close>

datatype pyval =
    PyNone
  | PyBool bool
  | PyInt int
  | PyFloat pyfloat
  | PyStr string
  | PyList "pyval list"
  | PyDict "(string \<times> pyval) list"

type_synonym pydict = "(string \<times> pyval) list"

text \<open>\<open>d.get(k)\<close>: the value stored under \<open>k\<close>, or \<open>None\<close>.\<close>

definition dict_get :: "pydict \<Rightarrow> string \<Rightarrow> pyval" where
  "dict_get d k = (case map_of d k of None \<Rightarrow> PyNone | Some v \<Rightarrow> v)"

text \<open>
  \<open>isinstance(v, (int, float))\<close>. \<open>bool\<close> is a subclass of \<open>int\<close> in Python, so a
  boolean passes the test.
\<close>

fun is_int_or_float :: "pyval \<Rightarrow> bool" where
  "is_int_or_float (PyBool b) = True"
| "is_int_or_float (PyInt i) = True"
| "is_int_or_float (PyFloat f) = True"
| "is_int_or_float v = False"

text \<open>
  \<open>float(v)\<close>. The source applies it only to a value that passed the \<open>isinstance\<close>
  test above, so only the first three equations are ever used; the last one is there to
  make the function total.
\<close>

fun to_float :: "pyval \<Rightarrow> pyfloat" where
  "to_float (PyBool b) = Finite (if b then 1 else 0)"
| "to_float (PyInt i) = Finite (of_int i)"
| "to_float (PyFloat f) = f"
| "to_float v = NaN"

text \<open>\<open>xs[i]\<close> on a list: a negative index counts from the end, out of range raises.\<close>

definition py_getitem :: "'a list \<Rightarrow> int \<Rightarrow> exn + 'a" where
  "py_getitem xs i =
     (let n = int (length xs); j = (if i < 0 then i + n else i)
      in if j < 0 \<or> n \<le> j then Inl IndexError else Inr (xs ! nat j))"

text \<open>
  The bound of a slice \<open>xs[:i]\<close> or \<open>xs[i:]\<close>: a negative bound counts from the end, and
  the result is clamped to the list.
\<close>

definition slice_bound :: "'a list \<Rightarrow> int \<Rightarrow> nat" where
  "slice_bound xs i =
     (let n = int (length xs); j = (if i < 0 then i + n else i)
      in if j < 0 then 0 else if n < j then length xs else nat j)"

definition slice_to :: "'a list \<Rightarrow> int \<Rightarrow> 'a list" where
  "slice_to xs i = take (slice_bound xs i) xs"

definition slice_from :: "'a list \<Rightarrow> int \<Rightarrow> 'a list" where
  "slice_from xs i = drop (slice_bound xs i) xs"

text \<open>\<open>d[k]\<close> on a dictionary: a missing key raises.\<close>

definition dict_getitem :: "('k \<times> 'v) list \<Rightarrow> 'k \<Rightarrow> exn + 'v" where
  "dict_getitem d k = (case map_of d k of None \<Rightarrow> Inl KeyError | Some v \<Rightarrow> Inr v)"

subsection \<open>Formatting a float with two decimals\<close>

text \<open>
  \<open>f"{x:.2f}"\<close>: the value rounded to two decimals, ties to the even neighbour, the sign
  of a negative value kept. Strings are the UTF-8 bytes of the Python text.
\<close>

definition round_half_even :: "rat \<Rightarrow> int" where
  "round_half_even x =
     (let f = \<lfloor>x\<rfloor>; d = x - of_int f
      in if d < 1 / 2 then f else if 1 / 2 < d then f + 1 else if even f then f else f + 1)"

definition digit_char :: "nat \<Rightarrow> char" where
  "digit_char d = char_of (48 + d)"

fun str_nat :: "nat \<Rightarrow> string" where
  "str_nat n = (if n < 10 then [digit_char n] else str_nat (n div 10) @ [digit_char (n mod 10)])"

declare str_nat.simps [simp del]

fun format_2f :: "pyfloat \<Rightarrow> string" where
  "format_2f (Finite r) =
     (let n = nat (round_half_even (\<bar>r\<bar> * 100))
      in (if r < 0 then ''-'' else '''') @ str_nat (n div 100) @ ''.''
         @ [digit_char (n mod 100 div 10), digit_char (n mod 10)])"
| "format_2f PosInf = ''inf''"
| "format_2f NegInf = ''-inf''"
| "format_2f NaN = ''nan''"

section \<open>models.py\<close>

datatype ProcessType = fundamental_explanation | guided_practice | assessment

datatype StepType = explain | example | exercise | evaluate | feedback

text \<open>
  Both enumerations mix in \<open>str\<close>: a member is a string equal to its value, and it hashes
  and compares as that string when it is a dictionary key.
\<close>

fun ProcessType_value :: "ProcessType \<Rightarrow> string" where
  "ProcessType_value fundamental_explanation = ''fundamental_explanation''"
| "ProcessType_value guided_practice = ''guided_practice''"
| "ProcessType_value assessment = ''assessment''"

fun StepType_value :: "StepType \<Rightarrow> string" where
  "StepType_value explain = ''explain''"
| "StepType_value example = ''example''"
| "StepType_value exercise = ''exercise''"
| "StepType_value evaluate = ''evaluate''"
| "StepType_value feedback = ''feedback''"

text \<open>
  \<open>str(member)\<close>: \<open>Enum.__str__\<close> is kept for an enumeration with a mixed-in type, so
  the text is the class name, a dot and the member name.
\<close>

definition str_ProcessType :: "ProcessType \<Rightarrow> string" where
  "str_ProcessType t = ''ProcessType.'' @ ProcessType_value t"

definition str_StepType :: "StepType \<Rightarrow> string" where
  "str_StepType s = ''StepType.'' @ StepType_value s"

text \<open>\<open>ProcessType(s)\<close>: the member whose value is \<open>s\<close>, or ValueError.\<close>

definition ProcessType_of :: "string \<Rightarrow> exn + ProcessType" where
  "ProcessType_of s =
     (if s = ''fundamental_explanation'' then Inr fundamental_explanation
      else if s = ''guided_practice'' then Inr guided_practice
      else if s = ''assessment'' then Inr assessment
      else Inl ValueError)"

text \<open>
  The \<open>context\<close> field of a StepResult is called \<open>step_context\<close> here, and the \<open>id\<close>,
  \<open>created_at\<close> fields of a ProcessInstance \<open>process_id\<close>, \<open>process_created_at\<close>.
\<close>

record StepResult =
  step :: StepType
  content :: string
  step_context :: pydict
  created_at :: string

record ProcessInstance =
  process_id :: string
  user_id :: string
  topic :: string
  process_type :: ProcessType
  steps :: "StepType list"
  current_index :: int
  history :: "StepResult list"
  process_created_at :: string
  updated_at :: string

definition current_step :: "ProcessInstance \<Rightarrow> exn + StepType" where
  "current_step inst = py_getitem (steps inst) (current_index inst)"

definition is_complete :: "ProcessInstance \<Rightarrow> bool" where
  "is_complete inst = (int (length (steps inst)) \<le> current_index inst)"

section \<open>workflows.py\<close>

definition DEFAULT_WORKFLOWS :: "(string \<times> StepType list) list" where
  "DEFAULT_WORKFLOWS =
     [(ProcessType_value fundamental_explanation, [explain, example, exercise, evaluate, feedback]),
      (ProcessType_value guided_practice, [example, exercise, feedback]),
      (ProcessType_value assessment, [exercise, evaluate, feedback])]"

text \<open>
  \<open>DEFAULT_WORKFLOWS.get(process_type, DEFAULT_WORKFLOWS[ProcessType.fundamental_explanation])\<close>:
  the default is looked up first, with the subscript that raises on a missing key. The
  argument \<open>ptype\<close> (\<open>process_type\<close> in the source) is the key as the dictionary sees
  it, a string.
\<close>

definition get_workflow :: "string \<Rightarrow> exn + StepType list" where
  "get_workflow ptype =
     (case dict_getitem DEFAULT_WORKFLOWS (ProcessType_value fundamental_explanation) of
        Inl e \<Rightarrow> Inl e
      | Inr dflt \<Rightarrow>
          (case map_of DEFAULT_WORKFLOWS ptype of
             None \<Rightarrow> Inr dflt
           | Some w \<Rightarrow> Inr w))"

section \<open>The session store as seen by the orchestrator\<close>

text \<open>
  The orchestrator reaches the session store through \<open>create_session\<close>,
  \<open>get_session\<close> and \<open>save_session\<close>, each of which answers with a pair
  \<open>(ok, res)\<close> and never raises: \<open>(True, {"session": instance})\<close> or
  \<open>(False, {"error": message})\<close>. The answers are inputs of the model, and the write
  calls an operation issues are part of its result, in the order they are made.
\<close>

datatype session_reply = Session ProcessInstance | Session_error string

datatype store_write = Create_session ProcessInstance | Save_session ProcessInstance

text \<open>
  What one call of an orchestrator method does: it returns a value or raises
  (\<open>outcome\<close>), it leaves the object bound to its local \<open>instance\<close> in some state
  (\<open>instance_after\<close>, \<open>None\<close> when no instance was obtained), and it has issued some
  writes to the session store (\<open>writes\<close>).
\<close>

record 'a call =
  outcome :: "exn + 'a"
  instance_after :: "ProcessInstance option"
  writes :: "store_write list"

section \<open>orchestrator.py\<close>

text \<open>
  The dictionaries the methods return, one field per key; a key that is absent from the
  dictionary, or present with the value \<open>None\<close>, is \<open>None\<close> here.
\<close>

record advance_result =
  adv_success :: bool
  adv_error :: "string option"
  adv_completed :: "bool option"
  adv_result :: "StepResult option"
  adv_instance :: "ProcessInstance option"

record suggest_result =
  sug_success :: bool
  sug_error :: "string option"
  sug_completed :: "bool option"
  sug_suggestion :: "string option"
  sug_rationale :: "string option"
  sug_confidence :: "pyfloat option"
  sug_applied :: "bool option"

text \<open>The accented letters of the message texts, in UTF-8, and the apostrophe.\<close>

definition a_acute :: string where "a_acute = [CHR 0xC3, CHR 0xA1]"
definition a_tilde :: string where "a_tilde = [CHR 0xC3, CHR 0xA3]"
definition c_cedilla :: string where "c_cedilla = [CHR 0xC3, CHR 0xA7]"
definition i_acute :: string where "i_acute = [CHR 0xC3, CHR 0xAD]"
definition o_acute :: string where "o_acute = [CHR 0xC3, CHR 0xB3]"
definition apostrophe :: string where "apostrophe = [CHR 0x27]"

text \<open>
  The texts \<open>advance\<close> puts into \<open>content\<close>, one per branch, as functions of the topic
  or of the score that the f-string interpolates.
\<close>

definition explain_content :: "string \<Rightarrow> string" where
  "explain_content t =
     ''Explica'' @ c_cedilla @ a_tilde @ ''o do t'' @ o_acute @ ''pico '' @ apostrophe @ t
     @ apostrophe @ '' com base em fontes relevantes.''"

definition example_content :: "string \<Rightarrow> string" where
  "example_content t =
     ''Exemplo pr'' @ a_acute @ ''tico sobre '' @ apostrophe @ t @ apostrophe @ ''.''"

definition exercise_content :: "string \<Rightarrow> string" where
  "exercise_content t =
     ''Exerc'' @ i_acute @ ''cio proposto: resolva um problema relacionado a '' @ apostrophe
     @ t @ apostrophe @ ''.''"

definition evaluate_content :: "pyfloat \<Rightarrow> string" where
  "evaluate_content sc =
     ''Avalia'' @ c_cedilla @ a_tilde @ ''o da resposta: score='' @ format_2f sc @ ''.''"

definition feedback_content :: string where
  "feedback_content = ''Feedback objetivo e pr'' @ o_acute @ ''ximos passos.''"

text \<open>The texts \<open>suggest_next_step\<close> puts into \<open>rationale\<close>, one per branch.\<close>

definition default_rationale :: string where
  "default_rationale = ''Progredir conforme o fluxo padr'' @ a_tilde @ ''o.''"

definition low_rationale :: "pyfloat \<Rightarrow> string" where
  "low_rationale ls =
     ''Desempenho baixo (score='' @ format_2f ls @ ''); refor'' @ c_cedilla @ ''ar explica''
     @ c_cedilla @ a_tilde @ ''o/exemplo.''"

definition fair_rationale :: "pyfloat \<Rightarrow> string" where
  "fair_rationale ls =
     ''Desempenho razo'' @ a_acute @ ''vel (score='' @ format_2f ls
     @ ''); praticar com novo exerc'' @ i_acute @ ''cio.''"

definition high_rationale :: "pyfloat \<Rightarrow> string" where
  "high_rationale ls =
     ''Desempenho alto (score='' @ format_2f ls @ ''); consolidar com feedback e concluir.''"

text \<open>The truth value of a \<open>str | None\<close>: false for \<open>None\<close> and for the empty string.\<close>

definition truthy :: "string option \<Rightarrow> bool" where
  "truthy s = (case s of None \<Rightarrow> False | Some t \<Rightarrow> t \<noteq> [])"

text \<open>
  \<open>start_process\<close>. Arguments: the answer of \<open>create_session\<close>, the fresh UUID, the two
  clock readings of the dataclass defaults, then the method's own arguments. The answer
  of \<open>create_session\<close> is not looked at by the source. The progress event that follows is
  sent inside a \<open>try\<close> whose handler swallows every exception and its result is unused;
  it is left out.
\<close>

definition start_process ::
  "session_reply \<Rightarrow> string \<Rightarrow> string \<Rightarrow> string \<Rightarrow> string \<Rightarrow> string \<Rightarrow> string
     \<Rightarrow> ProcessInstance call" where
  "start_process created uuid4 now_created now_updated uid topic_text ptype_text =
     (case ProcessType_of ptype_text of
        Inl e \<Rightarrow> \<lparr>outcome = Inl e, instance_after = None, writes = []\<rparr>
      | Inr ptype \<Rightarrow>
          (case get_workflow (ProcessType_value ptype) of
             Inl e \<Rightarrow> \<lparr>outcome = Inl e, instance_after = None, writes = []\<rparr>
           | Inr workflow \<Rightarrow>
               (let inst = \<lparr>process_id = uuid4, user_id = uid, topic = topic_text,
                             process_type = ptype, steps = workflow, current_index = 0,
                             history = [], process_created_at = now_created,
                             updated_at = now_updated\<rparr>
                in \<lparr>outcome = Inr inst, instance_after = Some inst,
                    writes = [Create_session inst]\<rparr>)))"

definition get_process :: "session_reply \<Rightarrow> ProcessInstance option" where
  "get_process got = (case got of Session_error msg \<Rightarrow> None | Session inst \<Rightarrow> Some inst)"

text \<open>
  \<open>advance\<close>. Arguments: the answer of \<open>get_session\<close>, the answer of the retrieval
  service (\<open>None\<close> when it raised), the answer of \<open>save_session\<close> (not looked at by the
  source), the clock reading of the new StepResult, and \<open>user_input\<close>. The progress
  events at the end are sent inside a \<open>try\<close> that swallows every exception; they are
  left out.
\<close>

definition advance ::
  "session_reply \<Rightarrow> pyval option \<Rightarrow> session_reply \<Rightarrow> string \<Rightarrow> string option
     \<Rightarrow> advance_result call" where
  "advance got retrieved saved now user_input =
     (case got of
        Session_error msg \<Rightarrow>
          \<lparr>outcome = Inr \<lparr>adv_success = False, adv_error = Some ''process_not_found'',
                            adv_completed = None, adv_result = None, adv_instance = None\<rparr>,
           instance_after = None, writes = []\<rparr>
      | Session inst \<Rightarrow>
          if is_complete inst then
            \<lparr>outcome = Inr \<lparr>adv_success = True, adv_error = None, adv_completed = Some True,
                              adv_result = None, adv_instance = Some inst\<rparr>,
             instance_after = Some inst, writes = []\<rparr>
          else
            (case current_step inst of
               Inl e \<Rightarrow> \<lparr>outcome = Inl e, instance_after = Some inst, writes = []\<rparr>
             | Inr stp \<Rightarrow>
                 (let context_chunks = (case retrieved of None \<Rightarrow> PyList [] | Some c \<Rightarrow> c);
                      (score, text) =
                        (if stp = explain then (None, explain_content (topic inst))
                         else if stp = example then (None, example_content (topic inst))
                         else if stp = exercise then (None, exercise_content (topic inst))
                         else if stp = evaluate then
                           (let sc = (if truthy user_input then Finite 1.0 else Finite 0.5)
                            in (Some sc, evaluate_content sc))
                         else if stp = feedback then (None, feedback_content)
                         else (None, []));
                      ctx = [(''citations'', context_chunks),
                             (''user_input'',
                              (case user_input of None \<Rightarrow> PyNone | Some u \<Rightarrow> PyStr u))]
                            @ (case score of None \<Rightarrow> [] | Some sc \<Rightarrow> [(''score'', PyFloat sc)]);
                      res = \<lparr>step = stp, content = text, step_context = ctx, created_at = now\<rparr>;
                      inst' = inst\<lparr>history := history inst @ [res],
                                   current_index := current_index inst + 1\<rparr>
                  in \<lparr>outcome = Inr \<lparr>adv_success = True, adv_error = None,
                                       adv_completed = Some (is_complete inst'),
                                       adv_result = Some res, adv_instance = Some inst'\<rparr>,
                      instance_after = Some inst', writes = [Save_session inst']\<rparr>)))"

text \<open>
  The loop of \<open>suggest_next_step\<close> over \<open>reversed(instance.history)\<close>: the first entry
  of the list it is given whose step is \<open>evaluate\<close> and whose context holds a number
  under \<open>"score"\<close> ends it.
\<close>

fun last_evaluate_score :: "StepResult list \<Rightarrow> pyfloat option" where
  "last_evaluate_score [] = None"
| "last_evaluate_score (h # hs) =
     (if step h = evaluate \<and> is_int_or_float (dict_get (step_context h) ''score'')
      then Some (to_float (dict_get (step_context h) ''score''))
      else last_evaluate_score hs)"

text \<open>Lines 126 to 132: the value of \<open>last_score\<close> when the policy starts.\<close>

definition last_score_of :: "ProcessInstance \<Rightarrow> pyfloat option \<Rightarrow> pyfloat option" where
  "last_score_of inst score =
     (case score of
        Some sc \<Rightarrow> Some sc
      | None \<Rightarrow> last_evaluate_score (rev (history inst)))"

text \<open>
  \<open>suggest_next_step\<close>. Arguments: the answer of \<open>get_session\<close>, the answer of
  \<open>save_session\<close> (not looked at by the source), \<open>score\<close> and \<open>apply\<close>
  (\<open>apply_it\<close> here).
\<close>

definition suggest_next_step ::
  "session_reply \<Rightarrow> session_reply \<Rightarrow> pyfloat option \<Rightarrow> bool \<Rightarrow> suggest_result call" where
  "suggest_next_step got saved score apply_it =
     (case got of
        Session_error msg \<Rightarrow>
          \<lparr>outcome = Inr \<lparr>sug_success = False, sug_error = Some ''process_not_found'',
                            sug_completed = None, sug_suggestion = None, sug_rationale = None,
                            sug_confidence = None, sug_applied = None\<rparr>,
           instance_after = None, writes = []\<rparr>
      | Session inst \<Rightarrow>
          if is_complete inst then
            \<lparr>outcome = Inr \<lparr>sug_success = True, sug_error = None, sug_completed = Some True,
                              sug_suggestion = None, sug_rationale = None,
                              sug_confidence = None, sug_applied = None\<rparr>,
             instance_after = Some inst, writes = []\<rparr>
          else
            (let last_score = last_score_of inst score
             in case (if current_index inst < int (length (steps inst))
                      then map_sum id Some (py_getitem (steps inst) (current_index inst))
                      else Inr None) of
                  Inl e \<Rightarrow> \<lparr>outcome = Inl e, instance_after = Some inst, writes = []\<rparr>
                | Inr default_next \<Rightarrow>
                    (let (suggestion, rationale, confidence) =
                           (case last_score of
                              None \<Rightarrow>
                                (default_next, default_rationale, Finite 0.6)
                            | Some ls \<Rightarrow>
                                if float_lt ls (Finite 0.6) then
                                  (Some (if explain \<in> set (steps inst) then explain else example),
                                   low_rationale ls, Finite 0.8)
                                else if float_lt ls (Finite 0.85) then
                                  (Some exercise, fair_rationale ls, Finite 0.7)
                                else
                                  (Some feedback, high_rationale ls, Finite 0.75));
                         inst' = (case suggestion of
                                    None \<Rightarrow> inst
                                  | Some sg \<Rightarrow>
                                      if apply_it
                                      then inst\<lparr>steps := slice_to (steps inst) (current_index inst)
                                                          @ [sg]
                                                          @ slice_from (steps inst) (current_index inst)\<rparr>
                                      else inst);
                         applied = (apply_it \<and> suggestion \<noteq> None)
                     in \<lparr>outcome = Inr \<lparr>sug_success = True, sug_error = None,
                                          sug_completed = Some (is_complete inst'),
                                          sug_suggestion = map_option str_StepType suggestion,
                                          sug_rationale = Some rationale,
                                          sug_confidence = Some confidence,
                                          sug_applied = Some applied\<rparr>,
                         instance_after = Some inst',
                         writes = (if applied then [Save_session inst'] else [])\<rparr>)))"

section \<open>education_api.py\<close>

text \<open>
  The two endpoints that call \<open>current_step()\<close>. A response is a record with one field
  per key of the returned dictionary.
\<close>

record start_response =
  sr_success :: bool
  sr_process_id :: string
  sr_process_type :: ProcessType
  sr_steps :: "string list"
  sr_current_step :: string

record history_item =
  hi_step :: string
  hi_content :: string
  hi_context :: pydict
  hi_created_at :: string

record process_response =
  pr_success :: bool
  pr_process_id :: string
  pr_process_type :: string
  pr_topic :: string
  pr_steps :: "string list"
  pr_current_index :: int
  pr_current_step :: "string option"
  pr_completed :: bool
  pr_history :: "history_item list"

text \<open>
  The handlers of the \<open>start_process\<close> endpoint: a ValueError becomes status 400 and
  any other exception status 500.
\<close>

definition start_handlers :: "exn \<Rightarrow> exn" where
  "start_handlers e = (if e = ValueError then HTTPException 400 else HTTPException 500)"

definition api_start_process ::
  "session_reply \<Rightarrow> string \<Rightarrow> string \<Rightarrow> string \<Rightarrow> string \<Rightarrow> string \<Rightarrow> string
     \<Rightarrow> exn + start_response" where
  "api_start_process created uuid4 now_created now_updated uid topic_text ptype_text =
     (case outcome (start_process created uuid4 now_created now_updated uid topic_text ptype_text) of
        Inl e \<Rightarrow> Inl (start_handlers e)
      | Inr inst \<Rightarrow>
          (case current_step inst of
             Inl e \<Rightarrow> Inl (start_handlers e)
           | Inr stp \<Rightarrow>
               Inr \<lparr>sr_success = True, sr_process_id = process_id inst,
                    sr_process_type = process_type inst,
                    sr_steps = map str_StepType (steps inst),
                    sr_current_step = str_StepType stp\<rparr>))"

text \<open>
  The \<open>get_process\<close> endpoint has no handler of its own: what \<open>current_step()\<close> raises
  leaves the function.
\<close>

definition api_get_process :: "session_reply \<Rightarrow> exn + process_response" where
  "api_get_process got =
     (case get_process got of
        None \<Rightarrow> Inl (HTTPException 404)
      | Some inst \<Rightarrow>
          (case (if \<not> is_complete inst
                 then map_sum id (\<lambda>stp. Some (str_StepType stp)) (current_step inst)
                 else Inr None) of
             Inl e \<Rightarrow> Inl e
           | Inr shown \<Rightarrow>
               Inr \<lparr>pr_success = True, pr_process_id = process_id inst,
                    pr_process_type = str_ProcessType (process_type inst),
                    pr_topic = topic inst,
                    pr_steps = map str_StepType (steps inst),
                    pr_current_index = current_index inst,
                    pr_current_step = shown,
                    pr_completed = is_complete inst,
                    pr_history =
                      map (\<lambda>h. \<lparr>hi_step = str_StepType (step h), hi_content = content h,
                                  hi_context = step_context h, hi_created_at = created_at h\<rparr>)
                          (history inst)\<rparr>))"

section \<open>Sequences of operations\<close>

text \<open>
  The instances the system can hold: the one \<open>start_process\<close> builds, and the one a call
  of \<open>advance\<close> or \<open>suggest_next_step\<close> leaves behind when the session store handed it an
  instance the system could hold. \<open>_serialize_instance\<close> stamps \<open>updated_at\<close> with the
  clock on every write, so an instance that comes back from the store may differ from the
  one written in that field.
\<close>

inductive reachable :: "ProcessInstance \<Rightarrow> bool" where
  started:
    "outcome (start_process created uuid4 now_created now_updated uid topic_text ptype_text)
       = Inr inst \<Longrightarrow> reachable inst"
| advanced:
    "reachable inst \<Longrightarrow>
     instance_after (advance (Session inst) retrieved saved now user_input) = Some inst'
     \<Longrightarrow> reachable inst'"
| suggested:
    "reachable inst \<Longrightarrow>
     instance_after (suggest_next_step (Session inst) saved score apply_it) = Some inst'
     \<Longrightarrow> reachable inst'"
| restamped:
    "reachable inst \<Longrightarrow> reachable (inst\<lparr>updated_at := stamp\<rparr>)"

text \<open>
  Successive calls of \<open>advance\<close> on one process. Each element of the list holds the
  inputs of one call (retrieval answer, \<open>save_session\<close> answer, clock, \<open>user_input\<close>);
  a call is given the instance the previous call wrote to the session store, or the
  instance that call was given when it wrote nothing.
\<close>

fun stored_after :: "ProcessInstance \<Rightarrow> store_write list \<Rightarrow> ProcessInstance" where
  "stored_after inst [] = inst"
| "stored_after inst (Create_session i # ws) = stored_after i ws"
| "stored_after inst (Save_session i # ws) = stored_after i ws"

fun advance_calls ::
  "ProcessInstance \<Rightarrow> (pyval option \<times> session_reply \<times> string \<times> string option) list
     \<Rightarrow> advance_result call list" where
  "advance_calls inst [] = []"
| "advance_calls inst ((retrieved, saved, now, user_input) # rest) =
     (let c = advance (Session inst) retrieved saved now user_input
      in c # advance_calls (stored_after inst (writes c)) rest)"

section \<open>An example process\<close>

text \<open>
  The process of the specification's end-to-end example, as \<open>start_process\<close> builds it
  for user \<open>u1\<close>, topic \<open>loops\<close> and type \<open>fundamental_explanation\<close>.
\<close>

definition example_instance :: ProcessInstance where
  "example_instance =
     \<lparr>process_id = ''p1'', user_id = ''u1'', topic = ''loops'',
      process_type = fundamental_explanation,
      steps = [explain, example, exercise, evaluate, feedback], current_index = 0,
      history = [], process_created_at = ''t0'', updated_at = ''t0''\<rparr>"

text \<open>
  A second process, of type \<open>assessment\<close>, after its first step (\<open>example_practised\<close>),
  after its second step with no answer given (\<open>example_evaluated\<close>), and after its last
  step (\<open>example_complete\<close>).
\<close>

definition example_practised :: ProcessInstance where
  "example_practised =
     \<lparr>process_id = ''p2'', user_id = ''u1'', topic = ''loops'', process_type = assessment,
      steps = [exercise, evaluate, feedback], current_index = 1,
      history =
        [\<lparr>step = exercise, content = exercise_content ''loops'',
          step_context = [(''citations'', PyList []), (''user_input'', PyNone)],
          created_at = ''t1''\<rparr>],
      process_created_at = ''t0'', updated_at = ''t0''\<rparr>"

definition example_evaluated :: ProcessInstance where
  "example_evaluated =
     \<lparr>process_id = ''p2'', user_id = ''u1'', topic = ''loops'', process_type = assessment,
      steps = [exercise, evaluate, feedback], current_index = 2,
      history =
        [\<lparr>step = exercise, content = exercise_content ''loops'',
          step_context = [(''citations'', PyList []), (''user_input'', PyNone)],
          created_at = ''t1''\<rparr>,
         \<lparr>step = evaluate, content = evaluate_content (Finite 0.5),
          step_context = [(''citations'', PyList []), (''user_input'', PyNone),
                          (''score'', PyFloat (Finite 0.5))],
          created_at = ''t2''\<rparr>],
      process_created_at = ''t0'', updated_at = ''t0''\<rparr>"

definition example_complete :: ProcessInstance where
  "example_complete =
     \<lparr>process_id = ''p2'', user_id = ''u1'', topic = ''loops'', process_type = assessment,
      steps = [exercise, evaluate, feedback], current_index = 3,
      history = history example_evaluated @
        [\<lparr>step = feedback, content = feedback_content,
          step_context = [(''citations'', PyList []), (''user_input'', PyNone)],
          created_at = ''t3''\<rparr>],
      process_created_at = ''t0'', updated_at = ''t0''\<rparr>"

section \<open>Auxiliary facts\<close>

lemma get_workflow_value:
  "get_workflow k =
     Inr (if k = ''fundamental_explanation'' then [explain, example, exercise, evaluate, feedback]
          else if k = ''guided_practice'' then [example, exercise, feedback]
          else if k = ''assessment'' then [exercise, evaluate, feedback]
          else [explain, example, exercise, evaluate, feedback])"
  by (simp add: get_workflow_def dict_getitem_def DEFAULT_WORKFLOWS_def)

lemma example_instance_in_range:
  "0 \<le> current_index example_instance" "\<not> is_complete example_instance"
  by (simp_all add: example_instance_def is_complete_def)

lemma example_instance_fields:
  "steps example_instance = [explain, example, exercise, evaluate, feedback]"
  "current_index example_instance = 0"
  "history example_instance = []"
  by (simp_all add: example_instance_def)

lemma current_step_in_range:
  "0 \<le> current_index inst \<Longrightarrow> \<not> is_complete inst
   \<Longrightarrow> current_step inst = Inr (steps inst ! nat (current_index inst))"
  by (simp add: current_step_def is_complete_def py_getitem_def Let_def)

lemma slices_in_range:
  "0 \<le> i \<Longrightarrow> i < int (length xs)
   \<Longrightarrow> slice_to xs i = take (nat i) xs \<and> slice_from xs i = drop (nat i) xs"
  by (simp add: slice_to_def slice_from_def slice_bound_def Let_def)

lemma insert_at_nth:
  assumes "n < length xs"
  shows "length (take n xs @ x # drop n xs) = Suc (length xs)"
    and "\<forall>i<n. (take n xs @ x # drop n xs) ! i = xs ! i"
    and "(take n xs @ x # drop n xs) ! n = x"
    and "\<forall>i. n \<le> i \<and> i < length xs \<longrightarrow> (take n xs @ x # drop n xs) ! Suc i = xs ! i"
proof -
  from assms show "length (take n xs @ x # drop n xs) = Suc (length xs)" by simp
  from assms show "\<forall>i<n. (take n xs @ x # drop n xs) ! i = xs ! i"
    by (simp add: nth_append)
  from assms show "(take n xs @ x # drop n xs) ! n = x"
    by (simp add: nth_append)
  show "\<forall>i. n \<le> i \<and> i < length xs \<longrightarrow> (take n xs @ x # drop n xs) ! Suc i = xs ! i"
  proof (intro allI impI)
    fix i assume i: "n \<le> i \<and> i < length xs"
    then have d: "Suc i - n = Suc (i - n)" by arith
    from i assms have "(take n xs @ x # drop n xs) ! Suc i = (x # drop n xs) ! (Suc i - n)"
      by (simp add: nth_append)
    also from i have "\<dots> = xs ! i" by (simp add: d)
    finally show "(take n xs @ x # drop n xs) ! Suc i = xs ! i" .
  qed
qed

lemma float_ge_not_lt: "float_ge s t \<Longrightarrow> \<not> float_lt s t"
  by (simp add: float_ge_def)

lemma float_ge_high_not_low: "float_ge s (Finite 0.85) \<Longrightarrow> \<not> float_lt s (Finite 0.6)"
  by (cases s) (simp_all add: float_ge_def)

text \<open>
  What \<open>suggest_next_step\<close> does on an instance that is not complete and whose cursor is
  not negative: the subscript and the slices are in range.
\<close>

lemma suggest_next_step_in_range:
  assumes "0 \<le> current_index inst" and "\<not> is_complete inst"
  shows "suggest_next_step (Session inst) saved score apply_it =
     (case (case last_score_of inst score of
              None \<Rightarrow> (steps inst ! nat (current_index inst), default_rationale, Finite 0.6)
            | Some ls \<Rightarrow>
                if float_lt ls (Finite 0.6)
                then (if explain \<in> set (steps inst) then explain else example,
                      low_rationale ls, Finite 0.8)
                else if float_lt ls (Finite 0.85) then (exercise, fair_rationale ls, Finite 0.7)
                else (feedback, high_rationale ls, Finite 0.75)) of
        (sg, rationale, confidence) \<Rightarrow>
          (let inst' = (if apply_it
                        then inst\<lparr>steps := take (nat (current_index inst)) (steps inst)
                                           @ sg # drop (nat (current_index inst)) (steps inst)\<rparr>
                        else inst)
           in \<lparr>outcome = Inr \<lparr>sug_success = True, sug_error = None,
                                sug_completed = Some False,
                                sug_suggestion = Some (str_StepType sg),
                                sug_rationale = Some rationale,
                                sug_confidence = Some confidence,
                                sug_applied = Some apply_it\<rparr>,
               instance_after = Some inst',
               writes = (if apply_it then [Save_session inst'] else [])\<rparr>))"
proof -
  from assms have lt: "current_index inst < int (length (steps inst))"
    by (simp add: is_complete_def)
  with assms have get: "py_getitem (steps inst) (current_index inst)
      = Inr (steps inst ! nat (current_index inst))"
    by (simp add: py_getitem_def Let_def)
  note sl = slices_in_range [OF assms(1) lt]
  show ?thesis
  proof (cases "last_score_of inst score")
    case None
    with assms lt show ?thesis
      by (simp add: suggest_next_step_def get sl Let_def is_complete_def)
  next
    case (Some ls)
    with assms lt show ?thesis
      by (simp add: suggest_next_step_def get sl Let_def is_complete_def)
  qed
qed

lemma advance_when_complete:
  "is_complete inst \<Longrightarrow>
   advance (Session inst) retrieved saved now user_input =
     \<lparr>outcome = Inr \<lparr>adv_success = True, adv_error = None, adv_completed = Some True,
                       adv_result = None, adv_instance = Some inst\<rparr>,
      instance_after = Some inst, writes = []\<rparr>"
  by (simp add: advance_def)

lemma advance_calls_when_complete:
  "is_complete inst \<Longrightarrow>
   advance_calls inst calls =
     map (\<lambda>c. \<lparr>outcome = Inr \<lparr>adv_success = True, adv_error = None,
                                 adv_completed = Some True, adv_result = None,
                                 adv_instance = Some inst\<rparr>,
                instance_after = Some inst, writes = []\<rparr>) calls"
proof (induction calls)
  case Nil
  show ?case by simp
next
  case (Cons c calls)
  obtain retrieved saved now user_input where c: "c = (retrieved, saved, now, user_input)"
    by (cases c)
  from Cons show ?case
    by (simp add: c advance_when_complete Let_def)
qed

lemma advance_in_range:
  assumes "0 \<le> current_index inst" and "\<not> is_complete inst"
  shows "advance (Session inst) retrieved saved now user_input =
     (let stp = steps inst ! nat (current_index inst);
          res = \<lparr>step = stp,
                 content =
                   (if stp = explain then explain_content (topic inst)
                    else if stp = example then example_content (topic inst)
                    else if stp = exercise then exercise_content (topic inst)
                    else if stp = evaluate
                    then evaluate_content (if truthy user_input then Finite 1.0 else Finite 0.5)
                    else feedback_content),
                 step_context =
                   [(''citations'', (case retrieved of None \<Rightarrow> PyList [] | Some c \<Rightarrow> c)),
                    (''user_input'', (case user_input of None \<Rightarrow> PyNone | Some u \<Rightarrow> PyStr u))]
                   @ (if stp = evaluate
                      then [(''score'',
                             PyFloat (if truthy user_input then Finite 1.0 else Finite 0.5))]
                      else []),
                 created_at = now\<rparr>;
          inst' = inst\<lparr>history := history inst @ [res],
                       current_index := current_index inst + 1\<rparr>
      in \<lparr>outcome = Inr \<lparr>adv_success = True, adv_error = None,
                           adv_completed = Some (is_complete inst'),
                           adv_result = Some res, adv_instance = Some inst'\<rparr>,
          instance_after = Some inst', writes = [Save_session inst']\<rparr>)"
  using assms
  by (cases "steps inst ! nat (current_index inst)")
     (simp_all add: advance_def current_step_in_range Let_def)

lemma suggest_when_complete:
  "is_complete inst \<Longrightarrow>
   suggest_next_step (Session inst) saved score apply_it =
     \<lparr>outcome = Inr \<lparr>sug_success = True, sug_error = None, sug_completed = Some True,
                       sug_suggestion = None, sug_rationale = None,
                       sug_confidence = None, sug_applied = None\<rparr>,
      instance_after = Some inst, writes = []\<rparr>"
  by (simp add: suggest_next_step_def)

lemma get_workflow_nonempty: "get_workflow k = Inr w \<Longrightarrow> w \<noteq> []"
  by (auto simp add: get_workflow_value split: if_splits)

lemma start_process_fresh:
  assumes "outcome (start_process created uuid4 now_created now_updated uid topic_text ptype_text)
             = Inr inst"
  shows "current_index inst = 0" and "history inst = []" and "steps inst \<noteq> []"
proof -
  from assms obtain ptype workflow where
    w: "get_workflow (ProcessType_value ptype) = Inr workflow"
    and i: "inst = \<lparr>process_id = uuid4, user_id = uid, topic = topic_text,
                     process_type = ptype, steps = workflow, current_index = 0,
                     history = [], process_created_at = now_created,
                     updated_at = now_updated\<rparr>"
    by (auto simp add: start_process_def Let_def split: sum.splits)
  from i show "current_index inst = 0" and "history inst = []" by simp_all
  from i get_workflow_nonempty [OF w] show "steps inst \<noteq> []" by simp
qed

lemma advance_keeps_cursor:
  assumes "0 \<le> current_index inst" and "current_index inst \<le> int (length (steps inst))"
    and "int (length (history inst)) = current_index inst"
    and "instance_after (advance (Session inst) retrieved saved now user_input) = Some inst'"
  shows "0 \<le> current_index inst' \<and> current_index inst' \<le> int (length (steps inst'))
         \<and> int (length (history inst')) = current_index inst'"
proof (cases "is_complete inst")
  case True
  with assms show ?thesis by (simp add: advance_when_complete)
next
  case False
  then have "current_index inst < int (length (steps inst))"
    by (simp add: is_complete_def)
  with assms(3,4) show ?thesis
    by (auto simp add: advance_in_range [OF assms(1) False] Let_def)
qed

lemma suggest_keeps_cursor:
  assumes "0 \<le> current_index inst" and "current_index inst \<le> int (length (steps inst))"
    and "int (length (history inst)) = current_index inst"
    and "instance_after (suggest_next_step (Session inst) saved score apply_it) = Some inst'"
  shows "0 \<le> current_index inst' \<and> current_index inst' \<le> int (length (steps inst'))
         \<and> int (length (history inst')) = current_index inst'"
proof (cases "is_complete inst")
  case True
  with assms show ?thesis by (simp add: suggest_when_complete)
next
  case False
  then have lt: "current_index inst < int (length (steps inst))"
    by (simp add: is_complete_def)
  from assms(4) have "inst' = inst \<or> (\<exists>sg. inst' =
      inst\<lparr>steps := take (nat (current_index inst)) (steps inst)
                       @ sg # drop (nat (current_index inst)) (steps inst)\<rparr>)"
    by (auto simp add: suggest_next_step_in_range [OF assms(1) False] Let_def
             split: prod.splits if_splits)
  with assms(1,2,3) lt show ?thesis by auto
qed

lemma reachable_cursor:
  "reachable inst \<Longrightarrow>
     0 \<le> current_index inst \<and> current_index inst \<le> int (length (steps inst))
     \<and> int (length (history inst)) = current_index inst"
proof (induction rule: reachable.induct)
  case (started created uuid4 now_created now_updated uid topic_text ptype_text inst)
  from start_process_fresh [OF started] show ?case by simp
next
  case (advanced inst retrieved saved now user_input inst')
  then show ?case using advance_keeps_cursor by blast
next
  case (suggested inst saved score apply_it inst')
  then show ?case using suggest_keeps_cursor by blast
next
  case (restamped inst stamp)
  then show ?case by simp
qed

lemma reachable_example_instance: "reachable example_instance"
proof -
  have "outcome (start_process (Session example_instance) ''p1'' ''t0'' ''t0'' ''u1'' ''loops''
                   ''fundamental_explanation'') = Inr example_instance"
    by (simp add: start_process_def ProcessType_of_def get_workflow_value example_instance_def
        Let_def)
  then show ?thesis by (rule reachable.started)
qed

lemma example_evaluated_in_range:
  "0 \<le> current_index example_evaluated" "\<not> is_complete example_evaluated"
  by (simp_all add: example_evaluated_def is_complete_def)

lemma reachable_example_evaluated: "reachable example_evaluated"
proof -
  let ?i0 = "\<lparr>process_id = ''p2'', user_id = ''u1'', topic = ''loops'',
              process_type = assessment, steps = [exercise, evaluate, feedback],
              current_index = 0, history = [], process_created_at = ''t0'',
              updated_at = ''t0''\<rparr>"
  let ?h1 = "\<lparr>step = exercise, content = exercise_content ''loops'',
              step_context = [(''citations'', PyList []), (''user_input'', PyNone)],
              created_at = ''t1''\<rparr>"
  let ?i1 = "?i0\<lparr>history := [?h1], current_index := 1\<rparr>"
  have "outcome (start_process (Session ?i0) ''p2'' ''t0'' ''t0'' ''u1'' ''loops''
                   ''assessment'') = Inr ?i0"
    by (simp add: start_process_def ProcessType_of_def get_workflow_value Let_def)
  then have r0: "reachable ?i0" by (rule reachable.started)
  have "instance_after (advance (Session ?i0) None (Session ?i0) ''t1'' None) = Some ?i1"
    by (simp add: advance_def is_complete_def current_step_def py_getitem_def Let_def)
  with r0 have r1: "reachable ?i1" by (rule reachable.advanced)
  have "instance_after (advance (Session ?i1) None (Session ?i1) ''t2'' None)
          = Some example_evaluated"
    by (simp add: advance_def is_complete_def current_step_def py_getitem_def Let_def
        truthy_def example_evaluated_def)
  with r1 show ?thesis by (rule reachable.advanced)
qed

lemma last_evaluate_score_first:
  assumes "i < length hs"
    and "step (hs ! i) = evaluate \<and> is_int_or_float (dict_get (step_context (hs ! i)) ''score'')"
    and "\<forall>j<i. \<not> (step (hs ! j) = evaluate
                    \<and> is_int_or_float (dict_get (step_context (hs ! j)) ''score''))"
  shows "last_evaluate_score hs = Some (to_float (dict_get (step_context (hs ! i)) ''score''))"
  using assms
proof (induction hs arbitrary: i)
  case Nil
  then show ?case by simp
next
  case (Cons h hs)
  show ?case
  proof (cases i)
    case 0
    with Cons.prems show ?thesis by simp
  next
    case (Suc k)
    with Cons.prems have "k < length hs"
      and "step (hs ! k) = evaluate \<and> is_int_or_float (dict_get (step_context (hs ! k)) ''score'')"
      by simp_all
    moreover from Cons.prems(3) Suc
    have "\<forall>j<k. \<not> (step (hs ! j) = evaluate
                    \<and> is_int_or_float (dict_get (step_context (hs ! j)) ''score''))"
      by (metis Suc_mono nth_Cons_Suc)
    ultimately have "last_evaluate_score hs
        = Some (to_float (dict_get (step_context (hs ! k)) ''score''))"
      by (rule Cons.IH)
    moreover from Cons.prems(3) Suc
    have "\<not> (step h = evaluate \<and> is_int_or_float (dict_get (step_context h) ''score''))"
      by (metis nth_Cons_0 zero_less_Suc)
    ultimately show ?thesis using Suc by auto
  qed
qed

lemma last_evaluate_score_none:
  "(\<forall>h \<in> set hs. \<not> (step h = evaluate
                       \<and> is_int_or_float (dict_get (step_context h) ''score'')))
   \<Longrightarrow> last_evaluate_score hs = None"
  by (induction hs) simp_all

lemma example_practised_in_range:
  "0 \<le> current_index example_practised" "\<not> is_complete example_practised"
  by (simp_all add: example_practised_def is_complete_def)

section \<open>The workflow catalog\<close>

text \<open>
  Claim C7. The catalog lookup is total: it returns exactly explain, example, exercise,
  evaluate, feedback for \<open>fundamental_explanation\<close>, exactly example, exercise, feedback
  for \<open>guided_practice\<close>, exactly exercise, evaluate, feedback for \<open>assessment\<close>, and for
  every other key the \<open>fundamental_explanation\<close> sequence; it never raises.
\<close>

theorem get_workflow_total:
  "get_workflow (ProcessType_value fundamental_explanation)
     = Inr [explain, example, exercise, evaluate, feedback]
   \<and> get_workflow (ProcessType_value guided_practice) = Inr [example, exercise, feedback]
   \<and> get_workflow (ProcessType_value assessment) = Inr [exercise, evaluate, feedback]
   \<and> (\<forall>k. k \<notin> {''fundamental_explanation'', ''guided_practice'', ''assessment''}
          \<longrightarrow> get_workflow k = Inr [explain, example, exercise, evaluate, feedback])
   \<and> (\<forall>k. \<exists>w. get_workflow k = Inr w)"
  by (simp add: get_workflow_value)

theorem get_workflow_total_witness:
  "''quiz'' \<notin> {''fundamental_explanation'', ''guided_practice'', ''assessment''}
   \<and> get_workflow ''quiz'' = Inr [explain, example, exercise, evaluate, feedback]"
proof -
  have "''quiz'' \<notin> {''fundamental_explanation'', ''guided_practice'', ''assessment''}"
    by simp
  moreover from get_workflow_total
  have "k \<notin> {''fundamental_explanation'', ''guided_practice'', ''assessment''}
          \<Longrightarrow> get_workflow k = Inr [explain, example, exercise, evaluate, feedback]" for k
    by (elim conjE allE impE)
  ultimately show ?thesis by (intro conjI)
qed

section \<open>The suggestion policy\<close>

text \<open>
  Claim C1. For a process that is not complete, \<open>suggest_next_step\<close> with effective last
  score \<open>s\<close> returns: for \<open>s < 0.6\<close> the suggestion explain when explain occurs in the
  steps and example otherwise, with confidence 0.8; for \<open>0.6 \<le> s < 0.85\<close> exercise with
  confidence 0.7; for \<open>s \<ge> 0.85\<close> feedback with confidence 0.75; and with no effective
  score the next planned step \<open>steps[current_index]\<close> with confidence 0.6. A process has
  a cursor that is not negative. The suggestion is returned as \<open>str\<close> renders the member.
\<close>

theorem suggestion_decision_table:
  assumes "0 \<le> current_index inst" and "\<not> is_complete inst"
  shows "\<exists>res. outcome (suggest_next_step (Session inst) saved score apply_it) = Inr res
     \<and> (last_score_of inst score = None \<longrightarrow>
            sug_suggestion res = Some (str_StepType (steps inst ! nat (current_index inst)))
          \<and> sug_confidence res = Some (Finite 0.6))
     \<and> (\<forall>s. last_score_of inst score = Some s \<longrightarrow>
            (float_lt s (Finite 0.6) \<longrightarrow>
               sug_suggestion res
                 = Some (str_StepType (if explain \<in> set (steps inst) then explain else example))
             \<and> sug_confidence res = Some (Finite 0.8))
          \<and> (float_ge s (Finite 0.6) \<and> float_lt s (Finite 0.85) \<longrightarrow>
               sug_suggestion res = Some (str_StepType exercise)
             \<and> sug_confidence res = Some (Finite 0.7))
          \<and> (float_ge s (Finite 0.85) \<longrightarrow>
               sug_suggestion res = Some (str_StepType feedback)
             \<and> sug_confidence res = Some (Finite 0.75)))"
proof (cases "last_score_of inst score")
  case None
  then show ?thesis
    by (simp add: suggest_next_step_in_range [OF assms] Let_def)
next
  case (Some ls)
  consider (low) "float_lt ls (Finite 0.6)"
    | (fair) "\<not> float_lt ls (Finite 0.6)" "float_lt ls (Finite 0.85)"
    | (high) "\<not> float_lt ls (Finite 0.6)" "\<not> float_lt ls (Finite 0.85)"
    by blast
  then show ?thesis
  proof cases
    case low
    with Some show ?thesis
      using float_ge_not_lt [of ls "Finite 0.6"] float_ge_high_not_low [of ls]
      by (auto simp add: suggest_next_step_in_range [OF assms] Let_def)
  next
    case fair
    with Some show ?thesis
      using float_ge_not_lt [of ls "Finite 0.85"]
      by (auto simp add: suggest_next_step_in_range [OF assms] Let_def)
  next
    case high
    with Some show ?thesis
      by (auto simp add: suggest_next_step_in_range [OF assms] Let_def)
  qed
qed

theorem suggestion_decision_table_witness:
  "0 \<le> current_index example_instance \<and> \<not> is_complete example_instance
   \<and> (\<exists>res. outcome (suggest_next_step (Session example_instance) (Session example_instance)
                        (Some (Finite 0.59)) False) = Inr res
          \<and> sug_suggestion res = Some (str_StepType explain)
          \<and> sug_confidence res = Some (Finite 0.8))"
proof -
  note h = example_instance_in_range
  have sc: "last_score_of example_instance (Some (Finite 0.59)) = Some (Finite 0.59)"
    by (simp add: last_score_of_def)
  have lt: "float_lt (Finite 0.59) (Finite 0.6)" by simp
  have mem: "explain \<in> set (steps example_instance)"
    by (simp add: example_instance_fields)
  from suggestion_decision_table [OF h, of "Session example_instance" "Some (Finite 0.59)" False]
  obtain res where
    r: "outcome (suggest_next_step (Session example_instance) (Session example_instance)
                     (Some (Finite 0.59)) False)
          = Inr res"
    and t: "\<forall>s. last_score_of example_instance (Some (Finite 0.59)) = Some s \<longrightarrow>
            (float_lt s (Finite 0.6) \<longrightarrow>
               sug_suggestion res
                 = Some (str_StepType (if explain \<in> set (steps example_instance)
                                       then explain else example))
             \<and> sug_confidence res = Some (Finite 0.8))
          \<and> (float_ge s (Finite 0.6) \<and> float_lt s (Finite 0.85) \<longrightarrow>
               sug_suggestion res = Some (str_StepType exercise)
             \<and> sug_confidence res = Some (Finite 0.7))
          \<and> (float_ge s (Finite 0.85) \<longrightarrow>
               sug_suggestion res = Some (str_StepType feedback)
             \<and> sug_confidence res = Some (Finite 0.75))"
    by (elim exE conjE)
  from t sc lt mem have "sug_suggestion res = Some (str_StepType explain)
      \<and> sug_confidence res = Some (Finite 0.8)"
    by simp
  with r h show ?thesis by (intro conjI exI [of _ res]) simp_all
qed

section \<open>Applying a suggestion\<close>

text \<open>
  Claim C5. For a process that is not complete, \<open>suggest_next_step\<close> with \<open>apply\<close> true
  yields the old steps with exactly the suggested step inserted at index
  \<open>current_index\<close>: the steps before the cursor are unchanged, every later step moves
  back by one place, history and cursor are unchanged, the new instance is what is saved,
  and the call reports \<open>applied\<close> true.
\<close>

theorem apply_inserts_suggestion_at_cursor:
  assumes "0 \<le> current_index inst" and "\<not> is_complete inst"
  shows "\<exists>res sg inst'.
       outcome (suggest_next_step (Session inst) saved score True) = Inr res
     \<and> sug_suggestion res = Some (str_StepType sg)
     \<and> sug_applied res = Some True
     \<and> instance_after (suggest_next_step (Session inst) saved score True) = Some inst'
     \<and> writes (suggest_next_step (Session inst) saved score True) = [Save_session inst']
     \<and> inst' = inst\<lparr>steps := take (nat (current_index inst)) (steps inst)
                               @ sg # drop (nat (current_index inst)) (steps inst)\<rparr>
     \<and> length (steps inst') = Suc (length (steps inst))
     \<and> (\<forall>i < nat (current_index inst). steps inst' ! i = steps inst ! i)
     \<and> steps inst' ! nat (current_index inst) = sg
     \<and> (\<forall>i. nat (current_index inst) \<le> i \<and> i < length (steps inst)
            \<longrightarrow> steps inst' ! Suc i = steps inst ! i)
     \<and> history inst' = history inst
     \<and> current_index inst' = current_index inst"
proof -
  let ?n = "nat (current_index inst)"
  from assms have n: "?n < length (steps inst)"
    by (simp add: is_complete_def)
  obtain sg rationale confidence where
    pol: "(case last_score_of inst score of
              None \<Rightarrow> (steps inst ! ?n, default_rationale, Finite 0.6)
            | Some ls \<Rightarrow>
                if float_lt ls (Finite 0.6)
                then (if explain \<in> set (steps inst) then explain else example,
                      low_rationale ls, Finite 0.8)
                else if float_lt ls (Finite 0.85) then (exercise, fair_rationale ls, Finite 0.7)
                else (feedback, high_rationale ls, Finite 0.75)) = (sg, rationale, confidence)"
    by (rule prod_cases3)
  let ?inst' = "inst\<lparr>steps := take ?n (steps inst) @ sg # drop ?n (steps inst)\<rparr>"
  have call: "suggest_next_step (Session inst) saved score True =
      \<lparr>outcome = Inr \<lparr>sug_success = True, sug_error = None, sug_completed = Some False,
                        sug_suggestion = Some (str_StepType sg),
                        sug_rationale = Some rationale, sug_confidence = Some confidence,
                        sug_applied = Some True\<rparr>,
       instance_after = Some ?inst', writes = [Save_session ?inst']\<rparr>"
    by (simp add: suggest_next_step_in_range [OF assms] pol Let_def)
  show ?thesis
    using insert_at_nth [OF n, of sg]
    by (intro exI [of _ "\<lparr>sug_success = True, sug_error = None, sug_completed = Some False,
                        sug_suggestion = Some (str_StepType sg),
                        sug_rationale = Some rationale, sug_confidence = Some confidence,
                        sug_applied = Some True\<rparr>"] exI [of _ sg] exI [of _ ?inst'])
       (simp add: call)
qed

theorem apply_inserts_suggestion_at_cursor_witness:
  "0 \<le> current_index example_instance \<and> \<not> is_complete example_instance
   \<and> (\<exists>res sg. outcome (suggest_next_step (Session example_instance)
                     (Session example_instance) None True)
                   = Inr res
          \<and> sug_applied res = Some True
          \<and> instance_after (suggest_next_step (Session example_instance)
                     (Session example_instance) None True)
              = Some (example_instance
                        \<lparr>steps := sg # [explain, example, exercise, evaluate, feedback]\<rparr>))"
proof -
  note h = example_instance_in_range
  from apply_inserts_suggestion_at_cursor [OF h, of "Session example_instance" None]
  obtain res sg inst' where
    "outcome (suggest_next_step (Session example_instance)
                     (Session example_instance) None True) = Inr res"
    "sug_applied res = Some True"
    "instance_after (suggest_next_step (Session example_instance)
                     (Session example_instance) None True) = Some inst'"
    "inst' = example_instance
               \<lparr>steps := take (nat (current_index example_instance)) (steps example_instance)
                         @ sg # drop (nat (current_index example_instance))
                                     (steps example_instance)\<rparr>"
    by (elim exE conjE)
  with h show ?thesis
    by (intro conjI exI [of _ res] exI [of _ sg]) (simp_all add: example_instance_fields)
qed

section \<open>The cursor invariant\<close>

text \<open>
  Claim C2. Every instance reachable from \<open>start_process\<close> by calls of \<open>advance\<close> and
  \<open>suggest_next_step\<close> satisfies \<open>0 \<le> current_index \<le> len(steps)\<close>, is complete exactly
  when \<open>current_index = len(steps)\<close>, and has \<open>len(history) = current_index\<close>.
\<close>

theorem reachable_invariant:
  assumes "reachable inst"
  shows "0 \<le> current_index inst \<and> current_index inst \<le> int (length (steps inst))
     \<and> (is_complete inst \<longleftrightarrow> current_index inst = int (length (steps inst)))
     \<and> int (length (history inst)) = current_index inst"
  using reachable_cursor [OF assms] by (auto simp add: is_complete_def)

theorem reachable_invariant_witness:
  "reachable example_evaluated
   \<and> current_index example_evaluated = 2
   \<and> int (length (history example_evaluated)) = current_index example_evaluated
   \<and> \<not> is_complete example_evaluated"
proof -
  from reachable_invariant [OF reachable_example_evaluated]
  have "int (length (history example_evaluated)) = current_index example_evaluated"
    and "is_complete example_evaluated
         \<longleftrightarrow> current_index example_evaluated = int (length (steps example_evaluated))"
    by simp_all
  moreover have "current_index example_evaluated = 2"
    and "steps example_evaluated = [exercise, evaluate, feedback]"
    by (simp_all add: example_evaluated_def)
  ultimately show ?thesis
    using reachable_example_evaluated by simp
qed

section \<open>A failed write to the session store\<close>

text \<open>
  Claim C3 says that a failed write to the session store is surfaced as an error. The
  code does otherwise: with \<open>create_session\<close> answering \<open>(False, ...)\<close>,
  \<open>start_process\<close> returns the instance and the start endpoint answers with
  \<open>success\<close> true; with \<open>save_session\<close> answering \<open>(False, ...)\<close>, \<open>advance\<close> returns
  \<open>success\<close> true, no error and the new StepResult.
\<close>

theorem store_failure_reported_as_success:
  "outcome (start_process (Session_error ''failed_to_insert'') ''p1'' ''t0'' ''t0'' ''u1''
              ''loops'' ''fundamental_explanation'') = Inr example_instance
   \<and> (\<exists>resp. api_start_process (Session_error ''failed_to_insert'') ''p1'' ''t0'' ''t0'' ''u1''
                ''loops'' ''fundamental_explanation'' = Inr resp \<and> sr_success resp)
   \<and> (\<exists>res r. outcome (advance (Session example_instance) None
                          (Session_error ''update_failed'') ''t1'' None) = Inr res
          \<and> adv_success res \<and> adv_error res = None \<and> adv_result res = Some r
          \<and> step r = explain)"
proof (intro conjI)
  show s: "outcome (start_process (Session_error ''failed_to_insert'') ''p1'' ''t0'' ''t0''
                      ''u1'' ''loops'' ''fundamental_explanation'') = Inr example_instance"
    by (simp add: start_process_def ProcessType_of_def get_workflow_value example_instance_def
        Let_def)
  have "current_step example_instance = Inr explain"
    by (simp add: current_step_in_range example_instance_in_range example_instance_fields)
  with s show "\<exists>resp. api_start_process (Session_error ''failed_to_insert'') ''p1'' ''t0''
                  ''t0'' ''u1'' ''loops'' ''fundamental_explanation'' = Inr resp
                \<and> sr_success resp"
    by (simp add: api_start_process_def)
  show "\<exists>res r. outcome (advance (Session example_instance) None
                          (Session_error ''update_failed'') ''t1'' None) = Inr res
          \<and> adv_success res \<and> adv_error res = None \<and> adv_result res = Some r
          \<and> step r = explain"
    by (simp add: advance_in_range [OF example_instance_in_range] Let_def
        example_instance_fields)
qed

section \<open>The complete process\<close>

text \<open>
  Claim C4. For a process with \<open>current_index = len(steps)\<close>, \<open>advance\<close> succeeds with
  \<open>completed\<close> true and no new StepResult, leaves the instance (history and cursor
  included) as it was and writes nothing; any number of successive calls does the same:
  none raises and none appends to history.
\<close>

theorem advance_on_complete_is_noop:
  assumes "current_index inst = int (length (steps inst))"
  shows "advance (Session inst) retrieved saved now user_input =
           \<lparr>outcome = Inr \<lparr>adv_success = True, adv_error = None, adv_completed = Some True,
                             adv_result = None, adv_instance = Some inst\<rparr>,
            instance_after = Some inst, writes = []\<rparr>
       \<and> advance_calls inst calls =
           map (\<lambda>c. \<lparr>outcome = Inr \<lparr>adv_success = True, adv_error = None,
                                       adv_completed = Some True, adv_result = None,
                                       adv_instance = Some inst\<rparr>,
                      instance_after = Some inst, writes = []\<rparr>) calls"
proof -
  from assms have "is_complete inst" by (simp add: is_complete_def)
  then show ?thesis
    by (simp add: advance_when_complete advance_calls_when_complete)
qed

theorem advance_on_complete_is_noop_witness:
  "current_index example_complete = int (length (steps example_complete))
   \<and> outcome (advance (Session example_complete) None (Session example_complete) ''t4''
                (Some ''again''))
       = Inr \<lparr>adv_success = True, adv_error = None, adv_completed = Some True,
              adv_result = None, adv_instance = Some example_complete\<rparr>
   \<and> length (advance_calls example_complete
               [(None, Session example_complete, ''t4'', None),
                (None, Session example_complete, ''t5'', Some ''again'')]) = 2"
proof -
  have h: "current_index example_complete = int (length (steps example_complete))"
    by (simp add: example_complete_def)
  from advance_on_complete_is_noop [OF h, of None "Session example_complete" "''t4''"
      "Some ''again''" "[(None, Session example_complete, ''t4'', None),
                (None, Session example_complete, ''t5'', Some ''again'')]"]
  have "outcome (advance (Session example_complete) None (Session example_complete) ''t4''
                (Some ''again''))
       = Inr \<lparr>adv_success = True, adv_error = None, adv_completed = Some True,
              adv_result = None, adv_instance = Some example_complete\<rparr>"
    and "length (advance_calls example_complete
               [(None, Session example_complete, ''t4'', None),
                (None, Session example_complete, ''t5'', Some ''again'')]) = 2"
    by simp_all
  with h show ?thesis by (intro conjI)
qed

section \<open>The score of an evaluate step\<close>

text \<open>
  Claim C6. When \<open>advance\<close> executes an evaluate step, the StepResult holds the score
  1.0 under the key \<open>"score"\<close> of its context if \<open>user_input\<close> is a non-empty string and
  0.5 if it is absent or empty; for an explain, example, exercise or feedback step the
  context has no \<open>"score"\<close> key.
\<close>

theorem evaluate_step_score:
  assumes "0 \<le> current_index inst" and "\<not> is_complete inst"
  shows "\<exists>res r. outcome (advance (Session inst) retrieved saved now user_input) = Inr res
     \<and> adv_result res = Some r
     \<and> step r = steps inst ! nat (current_index inst)
     \<and> (step r = evaluate \<longrightarrow>
           (\<forall>u. user_input = Some u \<and> u \<noteq> [] \<longrightarrow>
                map_of (step_context r) ''score'' = Some (PyFloat (Finite 1.0)))
         \<and> (user_input = None \<or> user_input = Some [] \<longrightarrow>
                map_of (step_context r) ''score'' = Some (PyFloat (Finite 0.5))))
     \<and> (step r \<in> {explain, example, exercise, feedback} \<longrightarrow>
           map_of (step_context r) ''score'' = None)"
proof (cases "steps inst ! nat (current_index inst) = evaluate")
  case True
  then show ?thesis
    by (auto simp add: advance_in_range [OF assms] Let_def truthy_def)
next
  case False
  then show ?thesis
    by (auto simp add: advance_in_range [OF assms] Let_def)
qed

theorem evaluate_step_score_witness:
  "0 \<le> current_index example_practised \<and> \<not> is_complete example_practised
   \<and> (\<exists>res r. outcome (advance (Session example_practised) None (Session example_practised)
                          ''t2'' (Some ''x'')) = Inr res
          \<and> adv_result res = Some r \<and> step r = evaluate
          \<and> map_of (step_context r) ''score'' = Some (PyFloat (Finite 1.0)))"
proof -
  note h = example_practised_in_range
  have st: "steps example_practised ! nat (current_index example_practised) = evaluate"
    by (simp add: example_practised_def)
  from evaluate_step_score [OF h, of None "Session example_practised" "''t2''" "Some ''x''"]
  obtain res r where
    o: "outcome (advance (Session example_practised) None (Session example_practised)
                   ''t2'' (Some ''x'')) = Inr res"
    and ar: "adv_result res = Some r"
    and sr: "step r = steps example_practised ! nat (current_index example_practised)"
    and ev: "step r = evaluate \<longrightarrow>
           (\<forall>u. Some ''x'' = Some u \<and> u \<noteq> [] \<longrightarrow>
                map_of (step_context r) ''score'' = Some (PyFloat (Finite 1.0)))
         \<and> (Some ''x'' = None \<or> Some ''x'' = Some [] \<longrightarrow>
                map_of (step_context r) ''score'' = Some (PyFloat (Finite 0.5)))"
    by (elim exE conjE)
  from sr st have e: "step r = evaluate" by simp
  with ev have "map_of (step_context r) ''score'' = Some (PyFloat (Finite 1.0))"
    by simp
  with o ar e h show ?thesis by (intro conjI exI [of _ res] exI [of _ r])
qed

section \<open>The score found in history\<close>

text \<open>
  Claim C8. Without a supplied score, the effective score of \<open>suggest_next_step\<close> is
  that of the newest history entry whose step is evaluate and whose context holds a
  number under \<open>"score"\<close>: the call behaves as if that score had been supplied. With no
  such entry there is no effective score, and a process that is not complete gets the
  next planned step with confidence 0.6.
\<close>

theorem history_scan_newest_first:
  "(\<forall>i. i < length (history inst)
        \<and> step (history inst ! i) = evaluate
        \<and> is_int_or_float (dict_get (step_context (history inst ! i)) ''score'')
        \<and> (\<forall>j. i < j \<and> j < length (history inst) \<longrightarrow>
               \<not> (step (history inst ! j) = evaluate
                  \<and> is_int_or_float (dict_get (step_context (history inst ! j)) ''score'')))
        \<longrightarrow> last_score_of inst None
              = Some (to_float (dict_get (step_context (history inst ! i)) ''score'')))
   \<and> ((\<forall>h \<in> set (history inst).
          \<not> (step h = evaluate \<and> is_int_or_float (dict_get (step_context h) ''score'')))
       \<longrightarrow> last_score_of inst None = None)
   \<and> suggest_next_step (Session inst) saved None apply_it
       = suggest_next_step (Session inst) saved (last_score_of inst None) apply_it
   \<and> (0 \<le> current_index inst \<and> \<not> is_complete inst \<and> last_score_of inst None = None
       \<longrightarrow> (\<exists>res. outcome (suggest_next_step (Session inst) saved None apply_it) = Inr res
              \<and> sug_suggestion res
                  = Some (str_StepType (steps inst ! nat (current_index inst)))
              \<and> sug_confidence res = Some (Finite 0.6)))"
proof (intro conjI allI impI)
  fix i
  let ?hs = "history inst"
  let ?n = "length ?hs"
  assume a: "i < ?n
        \<and> step (?hs ! i) = evaluate
        \<and> is_int_or_float (dict_get (step_context (?hs ! i)) ''score'')
        \<and> (\<forall>j. i < j \<and> j < ?n \<longrightarrow>
               \<not> (step (?hs ! j) = evaluate
                  \<and> is_int_or_float (dict_get (step_context (?hs ! j)) ''score'')))"
  let ?k = "?n - Suc i"
  from a have il: "i < ?n" by (elim conjE)
  from il have k: "?k < length (rev ?hs)" by simp
  from il have at: "rev ?hs ! ?k = ?hs ! i" by (simp add: rev_nth)
  have before: "\<forall>j<?k. \<not> (step (rev ?hs ! j) = evaluate
                  \<and> is_int_or_float (dict_get (step_context (rev ?hs ! j)) ''score''))"
  proof (intro allI impI)
    fix j assume j: "j < ?k"
    with il have "rev ?hs ! j = ?hs ! (?n - Suc j)" by (simp add: rev_nth)
    moreover from j il have "i < ?n - Suc j \<and> ?n - Suc j < ?n" by arith
    ultimately show "\<not> (step (rev ?hs ! j) = evaluate
                  \<and> is_int_or_float (dict_get (step_context (rev ?hs ! j)) ''score''))"
      using a by simp
  qed
  from a at have "step (rev ?hs ! ?k) = evaluate
      \<and> is_int_or_float (dict_get (step_context (rev ?hs ! ?k)) ''score'')"
    by simp
  from last_evaluate_score_first [OF k this before] at
  show "last_score_of inst None = Some (to_float (dict_get (step_context (?hs ! i)) ''score''))"
    by (simp add: last_score_of_def)
next
  assume "\<forall>h \<in> set (history inst).
          \<not> (step h = evaluate \<and> is_int_or_float (dict_get (step_context h) ''score''))"
  then have "last_evaluate_score (rev (history inst)) = None"
    by (intro last_evaluate_score_none) simp
  then show "last_score_of inst None = None"
    by (simp add: last_score_of_def)
next
  have "last_score_of inst (last_score_of inst None) = last_score_of inst None"
    by (cases "last_score_of inst None") (simp_all add: last_score_of_def)
  then show "suggest_next_step (Session inst) saved None apply_it
       = suggest_next_step (Session inst) saved (last_score_of inst None) apply_it"
    by (simp add: suggest_next_step_def)
next
  assume "0 \<le> current_index inst \<and> \<not> is_complete inst \<and> last_score_of inst None = None"
  then show "\<exists>res. outcome (suggest_next_step (Session inst) saved None apply_it) = Inr res
              \<and> sug_suggestion res
                  = Some (str_StepType (steps inst ! nat (current_index inst)))
              \<and> sug_confidence res = Some (Finite 0.6)"
    by (simp add: suggest_next_step_in_range Let_def)
qed

theorem history_scan_newest_first_witness:
  "1 < length (history example_evaluated)
   \<and> step (history example_evaluated ! 1) = evaluate
   \<and> is_int_or_float (dict_get (step_context (history example_evaluated ! 1)) ''score'')
   \<and> last_score_of example_evaluated None = Some (Finite 0.5)
   \<and> history example_instance = []
   \<and> last_score_of example_instance None = None
   \<and> (\<exists>res. outcome (suggest_next_step (Session example_instance) (Session example_instance)
                        None False) = Inr res
          \<and> sug_suggestion res = Some (str_StepType explain)
          \<and> sug_confidence res = Some (Finite 0.6))"
proof -
  let ?hs = "history example_evaluated"
  have l: "1 < length ?hs" by (simp add: example_evaluated_def)
  have e: "step (?hs ! 1) = evaluate" by (simp add: example_evaluated_def)
  have sc: "dict_get (step_context (?hs ! 1)) ''score'' = PyFloat (Finite 0.5)"
    by (simp add: example_evaluated_def dict_get_def)
  have len: "length ?hs = 2" by (simp add: example_evaluated_def)
  have later: "\<forall>j. 1 < j \<and> j < length ?hs \<longrightarrow>
               \<not> (step (?hs ! j) = evaluate
                  \<and> is_int_or_float (dict_get (step_context (?hs ! j)) ''score''))"
  proof (intro allI impI)
    fix j assume "1 < j \<and> j < length ?hs"
    with len have False by arith
    then show "\<not> (step (?hs ! j) = evaluate
                  \<and> is_int_or_float (dict_get (step_context (?hs ! j)) ''score''))" ..
  qed
  have none: "\<forall>h \<in> set (history example_instance).
          \<not> (step h = evaluate \<and> is_int_or_float (dict_get (step_context h) ''score''))"
    by (simp add: example_instance_fields)
  note t1 = history_scan_newest_first [of example_evaluated "Session example_evaluated" False]
  note t2 = history_scan_newest_first [of example_instance "Session example_instance" False]
  from t1 have "1 < length ?hs
        \<and> step (?hs ! 1) = evaluate
        \<and> is_int_or_float (dict_get (step_context (?hs ! 1)) ''score'')
        \<and> (\<forall>j. 1 < j \<and> j < length ?hs \<longrightarrow>
               \<not> (step (?hs ! j) = evaluate
                  \<and> is_int_or_float (dict_get (step_context (?hs ! j)) ''score'')))
        \<longrightarrow> last_score_of example_evaluated None
              = Some (to_float (dict_get (step_context (?hs ! 1)) ''score''))"
    by (elim conjE allE [of _ 1])
  with l e sc later have a: "last_score_of example_evaluated None = Some (Finite 0.5)"
    by simp
  from t2 have "(\<forall>h \<in> set (history example_instance).
          \<not> (step h = evaluate \<and> is_int_or_float (dict_get (step_context h) ''score'')))
       \<longrightarrow> last_score_of example_instance None = None"
    by (elim conjE)
  from this none have b: "last_score_of example_instance None = None"
    by (rule mp)
  from t2 have "0 \<le> current_index example_instance \<and> \<not> is_complete example_instance
       \<and> last_score_of example_instance None = None
       \<longrightarrow> (\<exists>res. outcome (suggest_next_step (Session example_instance)
                             (Session example_instance) None False) = Inr res
              \<and> sug_suggestion res
                  = Some (str_StepType (steps example_instance
                                          ! nat (current_index example_instance)))
              \<and> sug_confidence res = Some (Finite 0.6))"
    by (elim conjE)
  with b example_instance_in_range
  have "\<exists>res. outcome (suggest_next_step (Session example_instance) (Session example_instance)
                        None False) = Inr res
          \<and> sug_suggestion res
              = Some (str_StepType (steps example_instance ! nat (current_index example_instance)))
          \<and> sug_confidence res = Some (Finite 0.6)"
    by simp
  then have c: "\<exists>res. outcome (suggest_next_step (Session example_instance)
                        (Session example_instance) None False) = Inr res
          \<and> sug_suggestion res = Some (str_StepType explain)
          \<and> sug_confidence res = Some (Finite 0.6)"
    by (simp add: example_instance_fields)
  from l e sc a b c show ?thesis by (simp add: example_instance_fields)
qed

section \<open>Suggesting without applying\<close>

text \<open>
  Claim C9. \<open>suggest_next_step\<close> with \<open>apply\<close> false leaves the instance it was given
  unchanged (steps, cursor and history included), whether it returns or raises, and
  issues no write to the session store, whatever the store answered.
\<close>

theorem suggest_without_apply_is_read_only:
  "instance_after (suggest_next_step (Session inst) saved score False) = Some inst
   \<and> writes (suggest_next_step got saved score False) = []"
proof -
  have w: "writes (suggest_next_step got saved score False) = []"
    by (simp add: suggest_next_step_def Let_def
        split: session_reply.split sum.split prod.split option.split)
  have i: "instance_after (suggest_next_step (Session inst) saved score False) = Some inst"
    by (simp add: suggest_next_step_def Let_def split: sum.split prod.split option.split)
  from i w show ?thesis by (intro conjI)
qed

theorem suggest_without_apply_is_read_only_witness:
  "instance_after (suggest_next_step (Session example_evaluated) (Session example_evaluated)
                     None False) = Some example_evaluated
   \<and> writes (suggest_next_step (Session example_evaluated) (Session example_evaluated)
               None False) = []"
  using suggest_without_apply_is_read_only
    [of example_evaluated "Session example_evaluated" None "Session example_evaluated"]
  by (elim conjE) (intro conjI)

section \<open>Indexing the steps\<close>

text \<open>
  Claim C10. No operation indexes the steps out of bounds: every catalog sequence is
  non-empty, so \<open>current_step()\<close> of a freshly started instance is \<open>steps[0]\<close> and the
  start endpoint answers; and on every reachable instance \<open>current_step()\<close> is in range
  whenever the instance is not complete, and \<open>advance\<close>, \<open>suggest_next_step\<close> and the
  get endpoint return without raising.
\<close>

theorem steps_index_in_bounds:
  "(\<exists>w. get_workflow k = Inr w \<and> w \<noteq> [])
   \<and> (outcome (start_process created uuid4 now_created now_updated uid topic_text ptype_text)
         = Inr fresh
       \<longrightarrow> current_step fresh = Inr (steps fresh ! 0)
         \<and> (\<exists>resp. api_start_process created uuid4 now_created now_updated uid topic_text
                      ptype_text = Inr resp))
   \<and> (reachable inst \<longrightarrow>
         (\<not> is_complete inst \<longrightarrow>
            nat (current_index inst) < length (steps inst)
          \<and> current_step inst = Inr (steps inst ! nat (current_index inst)))
       \<and> (\<exists>res. outcome (advance (Session inst) retrieved saved now user_input) = Inr res)
       \<and> (\<exists>res. outcome (suggest_next_step (Session inst) saved score apply_it) = Inr res)
       \<and> (\<exists>resp. api_get_process (Session inst) = Inr resp))"
proof (intro conjI impI)
  show "\<exists>w. get_workflow k = Inr w \<and> w \<noteq> []"
    by (simp add: get_workflow_value)
next
  assume s: "outcome (start_process created uuid4 now_created now_updated uid topic_text
                        ptype_text) = Inr fresh"
  from start_process_fresh [OF s]
  show c: "current_step fresh = Inr (steps fresh ! 0)"
    by (simp add: current_step_def py_getitem_def Let_def)
  from s c show "\<exists>resp. api_start_process created uuid4 now_created now_updated uid topic_text
                      ptype_text = Inr resp"
    by (simp add: api_start_process_def)
next
  assume r: "reachable inst"
  note inv = reachable_cursor [OF r]
  {
    assume n: "\<not> is_complete inst"
    with inv show "nat (current_index inst) < length (steps inst)"
      unfolding is_complete_def by linarith
    from inv n show "current_step inst = Inr (steps inst ! nat (current_index inst))"
      by (simp add: current_step_in_range)
  }
  show "\<exists>res. outcome (advance (Session inst) retrieved saved now user_input) = Inr res"
  proof (cases "is_complete inst")
    case True
    then show ?thesis by (simp add: advance_when_complete)
  next
    case False
    with inv show ?thesis by (simp add: advance_in_range Let_def)
  qed
  show "\<exists>res. outcome (suggest_next_step (Session inst) saved score apply_it) = Inr res"
  proof (cases "is_complete inst")
    case True
    then show ?thesis by (simp add: suggest_when_complete)
  next
    case False
    with inv show ?thesis
      by (simp add: suggest_next_step_in_range Let_def split: prod.split)
  qed
  show "\<exists>resp. api_get_process (Session inst) = Inr resp"
  proof (cases "is_complete inst")
    case True
    then show ?thesis by (simp add: api_get_process_def get_process_def)
  next
    case False
    with inv show ?thesis
      by (simp add: api_get_process_def get_process_def current_step_in_range)
  qed
qed

theorem steps_index_in_bounds_witness:
  "outcome (start_process (Session example_instance) ''p1'' ''t0'' ''t0'' ''u1'' ''loops''
              ''fundamental_explanation'') = Inr example_instance
   \<and> current_step example_instance = Inr explain
   \<and> reachable example_evaluated \<and> \<not> is_complete example_evaluated
   \<and> current_step example_evaluated = Inr feedback
   \<and> (\<exists>res. outcome (advance (Session example_evaluated) None (Session example_evaluated)
                        ''t3'' None) = Inr res)"
proof -
  have s: "outcome (start_process (Session example_instance) ''p1'' ''t0'' ''t0'' ''u1''
                      ''loops'' ''fundamental_explanation'') = Inr example_instance"
    by (simp add: start_process_def ProcessType_of_def get_workflow_value example_instance_def
        Let_def)
  note r = reachable_example_evaluated
  note n = example_evaluated_in_range(2)
  from steps_index_in_bounds [of "''assessment''" "Session example_instance" "''p1''" "''t0''"
      "''t0''" "''u1''" "''loops''" "''fundamental_explanation''" example_instance
      example_evaluated None "Session example_evaluated" "''t3''" None None False]
  have a: "outcome (start_process (Session example_instance) ''p1'' ''t0'' ''t0'' ''u1''
                      ''loops'' ''fundamental_explanation'') = Inr example_instance
           \<longrightarrow> current_step example_instance = Inr (steps example_instance ! 0)"
    and b: "reachable example_evaluated \<longrightarrow>
         (\<not> is_complete example_evaluated \<longrightarrow>
            current_step example_evaluated
              = Inr (steps example_evaluated ! nat (current_index example_evaluated)))
       \<and> (\<exists>res. outcome (advance (Session example_evaluated) None (Session example_evaluated)
                            ''t3'' None) = Inr res)"
    by simp_all
  from a s have "current_step example_instance = Inr explain"
    by (simp add: example_instance_fields)
  moreover from b r n have "current_step example_evaluated = Inr feedback"
    by (simp add: example_evaluated_def)
  moreover from b r
  have "\<exists>res. outcome (advance (Session example_evaluated) None (Session example_evaluated)
                        ''t3'' None) = Inr res"
    by simp
  ultimately show ?thesis using s r n by (intro conjI)
qed

end
